theory Spec2Isabelle
  imports Main "HOL-Library.Word"
begin

section \<open>Shared vocabulary: identifiers, statuses, errors\<close>

text \<open>
  Modelled from the spec: the packages \<^verbatim>\<open>ids\<close> and \<^verbatim>\<open>choices\<close> are outside the given
  sources. \<^verbatim>\<open>ids.ID\<close> is a 32-byte value that the code only ever compares for equality
  and uses as a map key; \<^verbatim>\<open>choices.Status\<close> is the enumeration Unknown, Processing,
  Rejected, Accepted of section 3 of the specification. Heights are \<^verbatim>\<open>uint64\<close>.
\<close>

type_synonym ID = "256 word"

type_synonym uint64 = "64 word"

type_synonym byte = "8 word"

datatype Status = Unknown | Processing | Rejected | Accepted

text \<open>
  Go errors are values. \<open>ErrBlockNotFound\<close> is the sentinel of \<^verbatim>\<open>cache.go\<close>, compared
  with \<^verbatim>\<open>==\<close>; \<open>New msg\<close> is an error made by \<^verbatim>\<open>errors.New\<close> (this is also how the
  errors of the collaborators appear: an opaque text); \<open>Errorf format args\<close> is an
  error made by \<^verbatim>\<open>fmt.Errorf\<close>, kept with its format string and its arguments, so
  that what a message is built from stays visible.
\<close>

datatype error =
    ErrBlockNotFound
  | New string
  | Errorf string "fmtarg list"
and fmtarg =
    ArgID ID
  | ArgStatus Status
  | ArgUint uint64
  | ArgType string
  | ArgErr error

text \<open>
  The identifiers that the message of an error is built from: the \<^verbatim>\<open>ids.ID\<close>
  arguments of the \<^verbatim>\<open>fmt.Errorf\<close> call, and those of the errors it formats or wraps.
  The text of an \<^verbatim>\<open>errors.New\<close> error is fixed and carries none.
\<close>

primrec errorIDs :: "error \<Rightarrow> ID set" and argIDs :: "fmtarg \<Rightarrow> ID set" where
  "errorIDs ErrBlockNotFound = {}"
| "errorIDs (New msg) = {}"
| "errorIDs (Errorf format args) = \<Union> (set (map argIDs args))"
| "argIDs (ArgID i) = {i}"
| "argIDs (ArgStatus s) = {}"
| "argIDs (ArgUint n) = {}"
| "argIDs (ArgType t) = {}"
| "argIDs (ArgErr e) = errorIDs e"

section \<open>The bootstrap job (\<^verbatim>\<open>snow/engine/avalanche/bootstrap/vertex_job.go\<close>)\<close>

text \<open>
  Modelled from the spec: the interfaces \<^verbatim>\<open>avalanche.Vertex\<close>, \<^verbatim>\<open>snowstorm.Tx\<close> and
  \<^verbatim>\<open>vertex.Manager\<close> are declared outside the given sources. A transaction is what
  \<^verbatim>\<open>Status()\<close> reports. A vertex is what its methods report: \<^verbatim>\<open>ID()\<close>,
  \<^verbatim>\<open>Parents()\<close> and \<^verbatim>\<open>Txs()\<close> (each a list or an error), \<^verbatim>\<open>Status()\<close>, and the
  error, if any, that \<^verbatim>\<open>Accept()\<close> is going to return. \<open>acceptCalls\<close> counts the
  invocations of \<^verbatim>\<open>Accept()\<close>, so that "Accept was not called" can be stated.
\<close>

record Tx =
  txStatus :: Status

record Vertex =
  vtxID :: ID
  vtxParents :: "error + ID list"
  vtxTxs :: "error + Tx list"
  vtxStatus :: Status
  vtxAcceptErr :: "error option"
  acceptCalls :: nat

text \<open>
  Modelled from the spec: \<^verbatim>\<open>Accept()\<close> of the vertex (section 3 of the specification:
  a successful accept makes the status Accepted; a failure is reported and callers
  must not assume a status change).
\<close>

definition Accept :: "Vertex \<Rightarrow> error option \<times> Vertex" where
  "Accept vt =
     (case vtxAcceptErr vt of
        Some err \<Rightarrow> (Some err, vt\<lparr>acceptCalls := acceptCalls vt + 1\<rparr>)
      | None \<Rightarrow> (None, vt\<lparr>vtxStatus := Accepted, acceptCalls := acceptCalls vt + 1\<rparr>))"

text \<open>
  Modelled from the spec: the vertex manager, by its two operations used here.
  \<open>saved\<close> is the trace of the vertices handed to \<^verbatim>\<open>SaveVertex\<close>.
\<close>

record Manager =
  GetVertex :: "ID \<Rightarrow> error + Vertex"
  SaveVertexErr :: "Vertex \<Rightarrow> error option"
  saved :: "Vertex list"

text \<open>
  Modelled from the spec: \<^verbatim>\<open>SaveVertex\<close> answers with an error or nil and is recorded
  in the trace.
\<close>

definition SaveVertex :: "Manager \<Rightarrow> Vertex \<Rightarrow> error option \<times> Manager" where
  "SaveVertex m vt = (SaveVertexErr m vt, m\<lparr>saved := saved m @ [vt]\<rparr>)"

text \<open>
  The job itself, field by field; the two Prometheus counters are the number of
  \<^verbatim>\<open>Inc()\<close> calls, the logger is the list of warnings written.
\<close>

record vertexJob =
  log :: "string list"
  numAccepted :: nat
  numDropped :: nat
  vtx :: Vertex
  mgr :: Manager

definition jobID :: "vertexJob \<Rightarrow> ID" where
  "jobID v = vtxID (vtx v)"

text \<open>The body of the loop over \<^verbatim>\<open>parentIDs\<close> in \<^verbatim>\<open>MissingDependencies\<close>.\<close>

fun missingLoop :: "Manager \<Rightarrow> ID list \<Rightarrow> ID set \<Rightarrow> ID set" where
  "missingLoop m [] missing = missing"
| "missingLoop m (parentID # rest) missing =
     missingLoop m rest
       (case GetVertex m parentID of
          Inl err \<Rightarrow> insert parentID missing
        | Inr parent \<Rightarrow>
            if vtxStatus parent \<noteq> Accepted then insert parentID missing else missing)"

text \<open>Go returns the pair \<^verbatim>\<open>(ids.Set, error)\<close>; so does the model.\<close>

definition MissingDependencies :: "vertexJob \<Rightarrow> ID set \<times> error option" where
  "MissingDependencies v =
     (case vtxParents (vtx v) of
        Inl err \<Rightarrow> ({}, Some err)
      | Inr parentIDs \<Rightarrow> (missingLoop (mgr v) parentIDs {}, None))"

text \<open>
  The loop over \<^verbatim>\<open>txs\<close> in \<^verbatim>\<open>Execute\<close> returns from the function at the first
  transaction that is not accepted: \<open>txsLoop\<close> says whether it does.
\<close>

fun txsLoop :: "Tx list \<Rightarrow> bool" where
  "txsLoop [] = False"
| "txsLoop (tx # rest) = (if txStatus tx \<noteq> Accepted then True else txsLoop rest)"

definition Execute :: "vertexJob \<Rightarrow> error option \<times> vertexJob" where
  "Execute v =
     (case MissingDependencies v of
        (deps, Some err) \<Rightarrow> (Some err, v)
      | (deps, None) \<Rightarrow>
          if card deps \<noteq> 0 then
            (Some (New ''attempting to execute blocked vertex''),
             v\<lparr>numDropped := numDropped v + 1\<rparr>)
          else
            (case vtxTxs (vtx v) of
               Inl err \<Rightarrow> (Some err, v)
             | Inr txs \<Rightarrow>
                 if txsLoop txs then
                   (None,
                    v\<lparr>numDropped := numDropped v + 1,
                      log := log v @
                        [''attempting to execute vertex with non-accepted transactions'']\<rparr>)
                 else
                   (let status = vtxStatus (vtx v) in
                    if status = Unknown \<or> status = Rejected then
                      (Some (Errorf ''attempting to execute vertex with status %s''
                               [ArgStatus status]),
                       v\<lparr>numDropped := numDropped v + 1\<rparr>)
                    else if status = Processing then
                      (let v1 = v\<lparr>numAccepted := numAccepted v + 1\<rparr>;
                           (aerr, vt) = Accept (vtx v1);
                           v2 = v1\<lparr>vtx := vt\<rparr>
                       in case aerr of
                            Some err \<Rightarrow>
                              (Some (Errorf ''failed to accept vertex in bootstrapping: %w''
                                       [ArgErr err]),
                               v2)
                          | None \<Rightarrow>
                              (let (serr, m) = SaveVertex (mgr v2) (vtx v2);
                                   v3 = v2\<lparr>mgr := m\<rparr>
                               in case serr of
                                    Some err \<Rightarrow>
                                      (Some (Errorf
                                         ''failed to save block %s to VM's database: %s''
                                         [ArgID (vtxID (vtx v3)), ArgErr err]),
                                       v3)
                                  | None \<Rightarrow> (None, v3)))
                    else (None, v))))"

section \<open>The block cache (\<^verbatim>\<open>vms/components/chain/cache.go\<close>)\<close>

subsection \<open>The bounded caches\<close>

text \<open>
  Modelled from the spec: \<^verbatim>\<open>cache.Cacher\<close> and its implementation \<^verbatim>\<open>cache.LRU\<close> are
  outside the given sources. The specification describes a fixed-capacity keyed store
  with \<^verbatim>\<open>Get\<close>, \<^verbatim>\<open>Put\<close>, \<^verbatim>\<open>Evict\<close> and \<^verbatim>\<open>Flush\<close>, least-recently-used being the
  replacement policy named by the code. The entries are kept most recently used
  first; \<open>Get\<close> of a present key refreshes it, \<open>Put\<close> drops the entries beyond the
  capacity from the old end. The specification leaves open what a capacity of zero
  means; here such a cache retains nothing, and every statement below that needs an
  entry to be retained asks for a positive \<open>Size\<close>.
\<close>

record 'v LRU =
  Size :: int
  entries :: "(ID \<times> 'v) list"

text \<open>
  Modelled from the spec: \<^verbatim>\<open>Get\<close> looks a key up and, when it is present, makes its
  entry the most recently used one.
\<close>

definition Get :: "'v LRU \<Rightarrow> ID \<Rightarrow> 'v option \<times> 'v LRU" where
  "Get c key =
     (case map_of (entries c) key of
        None \<Rightarrow> (None, c)
      | Some v \<Rightarrow> (Some v, c\<lparr>entries := (key, v) # filter (\<lambda>e. fst e \<noteq> key) (entries c)\<rparr>))"

text \<open>
  Modelled from the spec: \<^verbatim>\<open>Put\<close> stores a value under a key as the most recently used
  entry, replacing the key's former entry, and keeps the \<open>Size\<close> most recent entries.
\<close>

definition Put :: "'v LRU \<Rightarrow> ID \<Rightarrow> 'v \<Rightarrow> 'v LRU" where
  "Put c key v =
     c\<lparr>entries := take (nat (Size c)) ((key, v) # filter (\<lambda>e. fst e \<noteq> key) (entries c))\<rparr>"

text \<open>Modelled from the spec: \<^verbatim>\<open>Evict\<close> removes the entry of a key, if there is one.\<close>

definition Evict :: "'v LRU \<Rightarrow> ID \<Rightarrow> 'v LRU" where
  "Evict c key = c\<lparr>entries := filter (\<lambda>e. fst e \<noteq> key) (entries c)\<rparr>"

text \<open>Modelled from the spec: \<^verbatim>\<open>Flush\<close> removes every entry.\<close>

definition Flush :: "'v LRU \<Rightarrow> 'v LRU" where
  "Flush c = c\<lparr>entries := []\<rparr>"

text \<open>The keys a bounded cache holds.\<close>

definition keys :: "'v LRU \<Rightarrow> ID set" where
  "keys c = fst ` set (entries c)"

text \<open>
  Modelled from the spec: \<^verbatim>\<open>metercacher.New\<close> is outside the given sources. It
  registers the metrics of a cache under a name and fails when the registerer refuses;
  by section 6 of the specification the wrapped cache behaves as the cache it wraps.
  The registerer is what it answers for each name.
\<close>

definition metercacher_New ::
  "string \<Rightarrow> (string \<Rightarrow> error option) \<Rightarrow> 'v LRU \<Rightarrow> error + 'v LRU" where
  "metercacher_New name registerer c =
     (case registerer name of Some err \<Rightarrow> Inl err | None \<Rightarrow> Inr c)"

subsection \<open>Blocks, wrappers and the cache structure\<close>

text \<open>
  Modelled from the spec: the interface \<^verbatim>\<open>snowman.Block\<close> is declared outside the given
  sources. A block is what the cache sees of it: its \<^verbatim>\<open>ID()\<close>, \<^verbatim>\<open>Height()\<close> and \<^verbatim>\<open>Status()\<close>,
  the name of its dynamic type, and whether that type also has \<^verbatim>\<open>SetStatus\<close>, which
  is what the type assertion \<^verbatim>\<open>blk.(Block)\<close> tests. \<^verbatim>\<open>SetStatus\<close> overwrites the
  status. Blocks are values here: the status written by \<^verbatim>\<open>SetStatus\<close> is carried by
  the block that is returned and wrapped.
\<close>

record Block =
  blkID :: ID
  blkHeight :: uint64
  blkStatus :: Status
  hasSetStatus :: bool
  goType :: string

text \<open>
  Modelled from the spec: \<^verbatim>\<open>SetStatus\<close> is implemented by the block types of the
  virtual machines, outside the given sources; it sets the status that \<^verbatim>\<open>Status()\<close>
  reports.
\<close>

definition SetStatus :: "Block \<Rightarrow> Status \<Rightarrow> Block" where
  "SetStatus blk s = blk\<lparr>blkStatus := s\<rparr>"

text \<open>
  Modelled from the spec: the type \<^verbatim>\<open>BlockWrapper\<close> is declared outside the given
  sources; by section 3 of the specification a wrapper owns one block and refers back
  to its cache. \<^verbatim>\<open>&BlockWrapper{Block: blk, cache: c}\<close> allocates an object; \<open>ref\<close> is its
  address, so that two wrappers of equal content are still two objects. The
  back-pointer to the cache is the same in every wrapper and is left out.
\<close>

record BlockWrapper =
  ref :: nat
  Block :: Block

text \<open>
  What a Go function returning \<^verbatim>\<open>(snowman.Block, error)\<close> can do: return a value, return
  an error, or panic (here: the call of a nil function value).
\<close>

datatype 'a outcome = Ok 'a | Err error | Panic

text \<open>
  The field \<^verbatim>\<open>getStatus\<close> holds a function value: nil, the closure written in
  \<^verbatim>\<open>NewCache\<close> that returns \<^verbatim>\<open>blk.Status()\<close>, or the closure made by
  \<^verbatim>\<open>produceGetStatus\<close> around a height oracle.
\<close>

datatype getStatusFunc =
    NilFunc
  | SelfReported
  | Produced "uint64 \<Rightarrow> error + ID"

text \<open>
  The structure \<^verbatim>\<open>Cache\<close>. The last two fields are not fields of the Go structure:
  \<open>allocated\<close> counts the wrappers allocated so far (the next fresh address), and
  \<open>storeCalls\<close> is the trace of the identifiers passed to \<^verbatim>\<open>getBlock\<close>.
\<close>

record Cache =
  getBlock :: "ID \<Rightarrow> error + Block"
  unmarshalBlock :: "byte list \<Rightarrow> error + Block"
  buildBlock :: "unit \<Rightarrow> error + Block"
  getStatus :: getStatusFunc
  verifiedBlocks :: "ID \<rightharpoonup> BlockWrapper"
  decidedBlocks :: "BlockWrapper LRU"
  unverifiedBlocks :: "BlockWrapper LRU"
  missingBlocks :: "unit LRU"
  lastAcceptedBlock :: BlockWrapper
  allocated :: nat
  storeCalls :: "ID list"

record Config =
  DecidedCacheSize :: int
  MissingCacheSize :: int
  UnverifiedCacheSize :: int
  LastAcceptedBlock :: Block
  cfgGetBlock :: "ID \<Rightarrow> error + Block"
  cfgUnmarshalBlock :: "byte list \<Rightarrow> error + Block"
  cfgBuildBlock :: "unit \<Rightarrow> error + Block"
  GetBlockIDAtHeight :: "(uint64 \<Rightarrow> error + ID) option"

subsection \<open>Status resolution\<close>

text \<open>
  The closure returned by \<^verbatim>\<open>produceGetStatus\<close>, applied to a block. It captures the
  pointer \<^verbatim>\<open>c\<close> and reads \<^verbatim>\<open>c.lastAcceptedBlock\<close> when it is called, so the cache
  passed here is the cache at the time of the call. The result is Go's pair
  \<^verbatim>\<open>(choices.Status, error)\<close> and the block after \<^verbatim>\<open>SetStatus\<close>.
\<close>

definition produceGetStatus ::
  "Cache \<Rightarrow> (uint64 \<Rightarrow> error + ID) \<Rightarrow> Block \<Rightarrow> (Status \<times> error option) \<times> Block" where
  "produceGetStatus c getBlockIDAtHeight blk =
     (if \<not> hasSetStatus blk then
        ((Unknown,
          Some (Errorf
            ''expected block to match chain Block interface but found block of type %T''
            [ArgType (goType blk)])),
         blk)
      else
        (let lastAcceptedHeight = blkHeight (Block (lastAcceptedBlock c));
             height = blkHeight blk
         in if height > lastAcceptedHeight then
              ((Processing, None), SetStatus blk Processing)
            else
              (case getBlockIDAtHeight height of
                 Inl err \<Rightarrow>
                   ((Unknown,
                     Some (Errorf ''failed to get accepted blkID at height %d''
                             [ArgUint height])),
                    blk)
               | Inr acceptedID \<Rightarrow>
                   if acceptedID = blkID blk then
                     ((Accepted, None), SetStatus blk Accepted)
                   else
                     ((Rejected, None), SetStatus blk Rejected))))"

text \<open>The call \<^verbatim>\<open>c.getStatus(blk)\<close>; \<open>None\<close> is the panic of calling a nil function.\<close>

definition callGetStatus ::
  "Cache \<Rightarrow> Block \<Rightarrow> ((Status \<times> error option) \<times> Block) option" where
  "callGetStatus c blk =
     (case getStatus c of
        NilFunc \<Rightarrow> None
      | SelfReported \<Rightarrow> Some ((blkStatus blk, None), blk)
      | Produced getBlockIDAtHeight \<Rightarrow> Some (produceGetStatus c getBlockIDAtHeight blk))"

subsection \<open>Construction\<close>

definition NewCache :: "Config \<Rightarrow> Cache" where
  "NewCache config =
     (let lastAccepted = \<lparr>ref = 0, Block = LastAcceptedBlock config\<rparr>
      in \<lparr>getBlock = cfgGetBlock config,
          unmarshalBlock = cfgUnmarshalBlock config,
          buildBlock = cfgBuildBlock config,
          getStatus =
            (case GetBlockIDAtHeight config of
               None \<Rightarrow> SelfReported
             | Some getBlockIDAtHeight \<Rightarrow> Produced getBlockIDAtHeight),
          verifiedBlocks = Map.empty,
          decidedBlocks =
            Put \<lparr>Size = DecidedCacheSize config, entries = []\<rparr>
              (blkID (LastAcceptedBlock config)) lastAccepted,
          unverifiedBlocks = \<lparr>Size = UnverifiedCacheSize config, entries = []\<rparr>,
          missingBlocks = \<lparr>Size = MissingCacheSize config, entries = []\<rparr>,
          lastAcceptedBlock = lastAccepted,
          allocated = 1,
          storeCalls = []\<rparr>)"

definition NewMeteredCache ::
  "(string \<Rightarrow> error option) \<Rightarrow> string \<Rightarrow> Config \<Rightarrow> error + Cache" where
  "NewMeteredCache registerer namespace config =
     (case metercacher_New (namespace @ ''_decided_cache'') registerer
             \<lparr>Size = DecidedCacheSize config, entries = []\<rparr> of
        Inl err \<Rightarrow> Inl err
      | Inr decidedCache \<Rightarrow>
     (case metercacher_New (namespace @ ''_missing_cache'') registerer
             \<lparr>Size = MissingCacheSize config, entries = []\<rparr> of
        Inl err \<Rightarrow> Inl err
      | Inr missingCache \<Rightarrow>
     (case metercacher_New (namespace @ ''_unverified_cache'') registerer
             \<lparr>Size = UnverifiedCacheSize config, entries = []\<rparr> of
        Inl err \<Rightarrow> Inl err
      | Inr unverifiedCache \<Rightarrow>
          (let lastAccepted = \<lparr>ref = 0, Block = LastAcceptedBlock config\<rparr>
           in Inr \<lparr>getBlock = cfgGetBlock config,
                   unmarshalBlock = cfgUnmarshalBlock config,
                   buildBlock = cfgBuildBlock config,
                   getStatus =
                     (case GetBlockIDAtHeight config of
                        None \<Rightarrow> NilFunc
                      | Some getBlockIDAtHeight \<Rightarrow> Produced getBlockIDAtHeight),
                   verifiedBlocks = Map.empty,
                   decidedBlocks =
                     Put decidedCache (blkID (LastAcceptedBlock config)) lastAccepted,
                   unverifiedBlocks = unverifiedCache,
                   missingBlocks = missingCache,
                   lastAcceptedBlock = lastAccepted,
                   allocated = 1,
                   storeCalls = []\<rparr>))))"

subsection \<open>Operations\<close>

definition FlushCaches :: "Cache \<Rightarrow> Cache" where
  "FlushCaches c =
     c\<lparr>decidedBlocks := Flush (decidedBlocks c),
       missingBlocks := Flush (missingBlocks c),
       unverifiedBlocks := Flush (unverifiedBlocks c)\<rparr>"

definition getCachedBlock :: "Cache \<Rightarrow> ID \<Rightarrow> BlockWrapper option \<times> Cache" where
  "getCachedBlock c blkID' =
     (case verifiedBlocks c blkID' of
        Some blk \<Rightarrow> (Some blk, c)
      | None \<Rightarrow>
          (case Get (decidedBlocks c) blkID' of
             (Some blk, d) \<Rightarrow> (Some blk, c\<lparr>decidedBlocks := d\<rparr>)
           | (None, d) \<Rightarrow>
               (case Get (unverifiedBlocks c) blkID' of
                  (Some blk, u) \<Rightarrow> (Some blk, c\<lparr>decidedBlocks := d, unverifiedBlocks := u\<rparr>)
                | (None, u) \<Rightarrow> (None, c\<lparr>decidedBlocks := d, unverifiedBlocks := u\<rparr>))))"

definition addBlockOutsideConsensus :: "Cache \<Rightarrow> Block \<Rightarrow> BlockWrapper outcome \<times> Cache" where
  "addBlockOutsideConsensus c blk =
     (let wrappedRef = allocated c;
          c1 = c\<lparr>allocated := allocated c + 1\<rparr>;
          blkID' = blkID blk
      in case callGetStatus c1 blk of
           None \<Rightarrow> (Panic, c1)
         | Some ((status, Some err), blk') \<Rightarrow>
             (Err (Errorf ''could not get block status for %s due to %w''
                     [ArgID blkID', ArgErr err]),
              c1)
         | Some ((status, None), blk') \<Rightarrow>
             (let wrappedBlk = \<lparr>ref = wrappedRef, Block = blk'\<rparr>
              in if status = Accepted \<or> status = Rejected then
                   (Ok wrappedBlk,
                    c1\<lparr>decidedBlocks := Put (decidedBlocks c1) blkID' wrappedBlk\<rparr>)
                 else if status = Processing then
                   (Ok wrappedBlk,
                    c1\<lparr>unverifiedBlocks := Put (unverifiedBlocks c1) blkID' wrappedBlk\<rparr>)
                 else
                   (Err (Errorf ''found unexpected status for blk %s: %s''
                           [ArgID blkID', ArgStatus status]),
                    c1)))"

definition GetBlock :: "Cache \<Rightarrow> ID \<Rightarrow> BlockWrapper outcome \<times> Cache" where
  "GetBlock c blkID' =
     (case getCachedBlock c blkID' of
        (Some blk, c1) \<Rightarrow> (Ok blk, c1)
      | (None, c1) \<Rightarrow>
          (case Get (missingBlocks c1) blkID' of
             (Some u, m) \<Rightarrow> (Err ErrBlockNotFound, c1\<lparr>missingBlocks := m\<rparr>)
           | (None, m) \<Rightarrow>
               (let c2 = c1\<lparr>missingBlocks := m, storeCalls := storeCalls c1 @ [blkID']\<rparr>
                in case getBlock c2 blkID' of
                     Inl err \<Rightarrow>
                       if err = ErrBlockNotFound then
                         (Err err, c2\<lparr>missingBlocks := Put (missingBlocks c2) blkID' ()\<rparr>)
                       else (Err err, c2)
                   | Inr blk \<Rightarrow> addBlockOutsideConsensus c2 blk)))"

definition GetBlockInternal :: "Cache \<Rightarrow> ID \<Rightarrow> Block outcome \<times> Cache" where
  "GetBlockInternal c blkID' =
     (case GetBlock c blkID' of
        (Ok wrappedBlk, c1) \<Rightarrow> (Ok (Block wrappedBlk), c1)
      | (Err err, c1) \<Rightarrow> (Err err, c1)
      | (Panic, c1) \<Rightarrow> (Panic, c1))"

definition ParseBlock :: "Cache \<Rightarrow> byte list \<Rightarrow> BlockWrapper outcome \<times> Cache" where
  "ParseBlock c b =
     (case unmarshalBlock c b of
        Inl err \<Rightarrow> (Err err, c)
      | Inr blk \<Rightarrow>
          (case getCachedBlock c (blkID blk) of
             (Some cachedBlk, c1) \<Rightarrow> (Ok cachedBlk, c1)
           | (None, c1) \<Rightarrow>
               addBlockOutsideConsensus
                 (c1\<lparr>missingBlocks := Evict (missingBlocks c1) (blkID blk)\<rparr>) blk))"

definition BuildBlock :: "Cache \<Rightarrow> BlockWrapper outcome \<times> Cache" where
  "BuildBlock c =
     (case buildBlock c () of
        Inl err \<Rightarrow> (Err err, c)
      | Inr blk \<Rightarrow>
          (case getCachedBlock c (blkID blk) of
             (Some existingBlk, c1) \<Rightarrow> (Ok existingBlk, c1)
           | (None, c1) \<Rightarrow>
               addBlockOutsideConsensus
                 (c1\<lparr>missingBlocks := Evict (missingBlocks c1) (blkID blk)\<rparr>) blk))"

definition LastAccepted :: "Cache \<Rightarrow> ID" where
  "LastAccepted c = blkID (Block (lastAcceptedBlock c))"

section \<open>Specification vocabulary and concrete inputs for the bootstrap job\<close>

text \<open>
  The specification's wording of a missing parent: "a parent counts as missing if
  resolution fails OR the resolved parent's status is not Accepted".
\<close>

definition parentMissing :: "Manager \<Rightarrow> ID \<Rightarrow> bool" where
  "parentMissing m parentID =
     (case GetVertex m parentID of
        Inl err \<Rightarrow> True
      | Inr parent \<Rightarrow> vtxStatus parent \<noteq> Accepted)"

text \<open>
  Concrete inputs: a manager that knows one accepted vertex, with identifier 1, and
  jobs over vertices with various parents, transactions and outcomes of \<^verbatim>\<open>Accept()\<close>.
\<close>

definition acceptedParent :: Vertex where
  "acceptedParent =
     \<lparr>vtxID = 1, vtxParents = Inr [], vtxTxs = Inr [], vtxStatus = Accepted,
      vtxAcceptErr = None, acceptCalls = 0\<rparr>"

definition exampleManager :: Manager where
  "exampleManager =
     \<lparr>GetVertex = (\<lambda>i. if i = 1 then Inr acceptedParent else Inl (New ''vertex not found'')),
      SaveVertexErr = (\<lambda>vt. None),
      saved = []\<rparr>"

definition exampleJob :: "Vertex \<Rightarrow> Manager \<Rightarrow> vertexJob" where
  "exampleJob vt m = \<lparr>log = [], numAccepted = 0, numDropped = 0, vtx = vt, mgr = m\<rparr>"

definition blockedVertex :: Vertex where
  "blockedVertex =
     \<lparr>vtxID = 7, vtxParents = Inr [1, 2], vtxTxs = Inr [], vtxStatus = Processing,
      vtxAcceptErr = None, acceptCalls = 0\<rparr>"

definition pendingTxVertex :: Vertex where
  "pendingTxVertex =
     \<lparr>vtxID = 7, vtxParents = Inr [1],
      vtxTxs = Inr [\<lparr>txStatus = Accepted\<rparr>, \<lparr>txStatus = Processing\<rparr>],
      vtxStatus = Processing, vtxAcceptErr = None, acceptCalls = 0\<rparr>"

definition readyVertex :: "ID \<Rightarrow> error option \<Rightarrow> Vertex" where
  "readyVertex i aerr =
     \<lparr>vtxID = i, vtxParents = Inr [1], vtxTxs = Inr [\<lparr>txStatus = Accepted\<rparr>],
      vtxStatus = Processing, vtxAcceptErr = aerr, acceptCalls = 0\<rparr>"

definition noParentsVertex :: Vertex where
  "noParentsVertex =
     \<lparr>vtxID = 7, vtxParents = Inl (New ''parents unavailable''), vtxTxs = Inr [],
      vtxStatus = Processing, vtxAcceptErr = None, acceptCalls = 0\<rparr>"

definition failingSaveManager :: Manager where
  "failingSaveManager = exampleManager\<lparr>SaveVertexErr := (\<lambda>vt. Some (New ''disk full''))\<rparr>"

section \<open>Specification vocabulary and concrete inputs for the block cache\<close>

text \<open>
  The identifiers held by the positive tiers, and the tier-exclusivity property of
  the specification: an identifier is in at most one of the verified map, the decided
  cache and the unverified cache, never in a positive tier and in the missing cache at
  once, and each bounded cache holds at most one entry for an identifier.
\<close>

definition positiveKeys :: "Cache \<Rightarrow> ID set" where
  "positiveKeys c =
     dom (verifiedBlocks c) \<union> keys (decidedBlocks c) \<union> keys (unverifiedBlocks c)"

definition tierExclusive :: "Cache \<Rightarrow> bool" where
  "tierExclusive c =
     (dom (verifiedBlocks c) \<inter> keys (decidedBlocks c) = {}
      \<and> dom (verifiedBlocks c) \<inter> keys (unverifiedBlocks c) = {}
      \<and> keys (decidedBlocks c) \<inter> keys (unverifiedBlocks c) = {}
      \<and> keys (missingBlocks c) \<inter> positiveKeys c = {}
      \<and> distinct (map fst (entries (decidedBlocks c)))
      \<and> distinct (map fst (entries (unverifiedBlocks c)))
      \<and> distinct (map fst (entries (missingBlocks c))))"

text \<open>
  The specification's lookup of the canonical wrapper of an identifier: the positive
  tiers in the priority order verified, decided, unverified.
\<close>

definition canonical :: "Cache \<Rightarrow> ID \<Rightarrow> BlockWrapper option" where
  "canonical c i =
     (case verifiedBlocks c i of
        Some w \<Rightarrow> Some w
      | None \<Rightarrow>
          (case map_of (entries (decidedBlocks c)) i of
             Some w \<Rightarrow> Some w
           | None \<Rightarrow> map_of (entries (unverifiedBlocks c)) i))"

text \<open>
  The states of a cache reachable from its construction by any sequence of calls of
  \<^verbatim>\<open>GetBlock\<close>, \<^verbatim>\<open>ParseBlock\<close>, \<^verbatim>\<open>BuildBlock\<close> and \<^verbatim>\<open>FlushCaches\<close>. The
  collaborators are closures over the state of the virtual machine, so what they
  answer may change between two calls (rules \<open>collaborators\<close> and \<open>heightOracle\<close>).
  Nothing is asked of the collaborators.
\<close>

inductive reachable :: "Cache \<Rightarrow> bool" where
  construct: "reachable (NewCache config)"
| constructMetered: "NewMeteredCache registerer namespace config = Inr c \<Longrightarrow> reachable c"
| get: "reachable c \<Longrightarrow> reachable (snd (GetBlock c i))"
| parse: "reachable c \<Longrightarrow> reachable (snd (ParseBlock c b))"
| build: "reachable c \<Longrightarrow> reachable (snd (BuildBlock c))"
| flush: "reachable c \<Longrightarrow> reachable (FlushCaches c)"
| collaborators:
    "reachable c \<Longrightarrow> reachable (c\<lparr>getBlock := g, unmarshalBlock := u, buildBlock := b\<rparr>)"
| heightOracle: "reachable c \<Longrightarrow> getStatus c = Produced f \<Longrightarrow> reachable (c\<lparr>getStatus := Produced h\<rparr>)"

text \<open>
  The same states, restricted to the calls of \<^verbatim>\<open>GetBlock\<close> in which the store, if it
  answers the request for an identifier with a block, answers with a block of that
  identifier.
\<close>

inductive reachableByID :: "Cache \<Rightarrow> bool" where
  construct: "reachableByID (NewCache config)"
| constructMetered:
    "NewMeteredCache registerer namespace config = Inr c \<Longrightarrow> reachableByID c"
| get: "reachableByID c \<Longrightarrow> (\<forall>blk. getBlock c i = Inr blk \<longrightarrow> blkID blk = i) \<Longrightarrow>
        reachableByID (snd (GetBlock c i))"
| parse: "reachableByID c \<Longrightarrow> reachableByID (snd (ParseBlock c b))"
| build: "reachableByID c \<Longrightarrow> reachableByID (snd (BuildBlock c))"
| flush: "reachableByID c \<Longrightarrow> reachableByID (FlushCaches c)"
| collaborators:
    "reachableByID c \<Longrightarrow>
     reachableByID (c\<lparr>getBlock := g, unmarshalBlock := u, buildBlock := b\<rparr>)"
| heightOracle:
    "reachableByID c \<Longrightarrow> getStatus c = Produced f \<Longrightarrow>
     reachableByID (c\<lparr>getStatus := Produced h\<rparr>)"

text \<open>
  Concrete inputs: blocks of a type with (or without) \<^verbatim>\<open>SetStatus\<close>; a store that knows
  block 2, fails on block 3 with an error of its own and reports every other block as
  not found; an unmarshaller that parses two byte strings; a builder; and a
  configuration with three caches of capacity 2 and the last accepted block 1 at
  height 0.
\<close>

definition exampleBlock :: "ID \<Rightarrow> uint64 \<Rightarrow> Status \<Rightarrow> bool \<Rightarrow> Block" where
  "exampleBlock i h s settable =
     \<lparr>blkID = i, blkHeight = h, blkStatus = s, hasSetStatus = settable,
      goType = (if settable then ''*chain.TestBlock'' else ''*snowman.TestBlock'')\<rparr>"

definition exampleStore :: "ID \<Rightarrow> error + Block" where
  "exampleStore i =
     (if i = 2 then Inr (exampleBlock 2 1 Processing True)
      else if i = 3 then Inl (New ''database closed'')
      else Inl ErrBlockNotFound)"

definition exampleUnmarshal :: "byte list \<Rightarrow> error + Block" where
  "exampleUnmarshal b =
     (if b = [5] then Inr (exampleBlock 5 1 Processing True)
      else if b = [2] then Inr (exampleBlock 2 1 Processing True)
      else Inl (New ''invalid block bytes''))"

definition exampleBuild :: "unit \<Rightarrow> error + Block" where
  "exampleBuild u = Inr (exampleBlock 5 1 Processing True)"

definition exampleConfig :: "(uint64 \<Rightarrow> error + ID) option \<Rightarrow> Config" where
  "exampleConfig heightOracle =
     \<lparr>DecidedCacheSize = 2, MissingCacheSize = 2, UnverifiedCacheSize = 2,
      LastAcceptedBlock = exampleBlock 1 0 Accepted True,
      cfgGetBlock = exampleStore,
      cfgUnmarshalBlock = exampleUnmarshal,
      cfgBuildBlock = exampleBuild,
      GetBlockIDAtHeight = heightOracle\<rparr>"

text \<open>
  A store that answers the request for block 4 with block 5, reported as accepted,
  and the request for block 5 with block 5, reported as processing.
\<close>

definition mislabellingStore :: "ID \<Rightarrow> error + Block" where
  "mislabellingStore i =
     (if i = 4 then Inr (exampleBlock 5 0 Accepted True)
      else if i = 5 then Inr (exampleBlock 5 1 Processing True)
      else Inl ErrBlockNotFound)"

definition mislabellingConfig :: Config where
  "mislabellingConfig = (exampleConfig None)\<lparr>cfgGetBlock := mislabellingStore\<rparr>"

section \<open>Properties of the bootstrap job\<close>

subsection \<open>Auxiliary facts\<close>

lemma missingLoop_collect:
  "missingLoop m ps acc = acc \<union> {p \<in> set ps. parentMissing m p}"
  by (induction ps arbitrary: acc) (auto simp: parentMissing_def split: sum.splits)

lemma not_parentMissing_iff:
  "(\<not> parentMissing m p) =
   (\<exists>parent. GetVertex m p = Inr parent \<and> vtxStatus parent = Accepted)"
  by (cases "GetVertex m p") (simp_all add: parentMissing_def)

lemma txsLoop_iff: "txsLoop txs = (\<exists>tx \<in> set txs. txStatus tx \<noteq> Accepted)"
  by (induction txs) auto

lemma MissingDependencies_Parents_ok:
  "vtxParents (vtx v) = Inr parentIDs \<Longrightarrow>
   MissingDependencies v = ({p \<in> set parentIDs. parentMissing (mgr v) p}, None)"
  by (simp add: MissingDependencies_def missingLoop_collect)

lemma MissingDependencies_finite: "finite (fst (MissingDependencies v))"
  by (auto simp: MissingDependencies_def missingLoop_collect split: sum.splits)

lemma MissingDependencies_nonempty_no_error:
  "fst (MissingDependencies v) \<noteq> {} \<Longrightarrow> snd (MissingDependencies v) = None"
  by (auto simp: MissingDependencies_def split: sum.splits)

lemma Execute_blocked:
  assumes "fst (MissingDependencies v) \<noteq> {}"
  shows "Execute v = (Some (New ''attempting to execute blocked vertex''),
                      v\<lparr>numDropped := numDropped v + 1\<rparr>)"
proof -
  obtain deps where d: "MissingDependencies v = (deps, None)"
    using MissingDependencies_nonempty_no_error [OF assms] by (cases "MissingDependencies v") auto
  have "finite deps" using MissingDependencies_finite [of v] d by simp
  moreover have "deps \<noteq> {}" using assms d by simp
  ultimately have "card deps \<noteq> 0" by simp
  then show ?thesis by (simp add: Execute_def d)
qed

lemma Execute_Processing:
  assumes "MissingDependencies v = ({}, None)"
    and "vtxTxs (vtx v) = Inr txs"
    and "\<forall>tx \<in> set txs. txStatus tx = Accepted"
    and "vtxStatus (vtx v) = Processing"
  shows "Execute v =
     (let v1 = v\<lparr>numAccepted := numAccepted v + 1\<rparr>;
          (aerr, vt) = Accept (vtx v1);
          v2 = v1\<lparr>vtx := vt\<rparr>
      in case aerr of
           Some err \<Rightarrow>
             (Some (Errorf ''failed to accept vertex in bootstrapping: %w'' [ArgErr err]), v2)
         | None \<Rightarrow>
             (let (serr, m) = SaveVertex (mgr v2) (vtx v2);
                  v3 = v2\<lparr>mgr := m\<rparr>
              in case serr of
                   Some err \<Rightarrow>
                     (Some (Errorf ''failed to save block %s to VM's database: %s''
                              [ArgID (vtxID (vtx v3)), ArgErr err]), v3)
                 | None \<Rightarrow> (None, v3)))"
proof -
  have "\<not> txsLoop txs" using assms(3) by (simp add: txsLoop_iff)
  then show ?thesis using assms(1,2,4) by (simp add: Execute_def)
qed

subsection \<open>Dependency gating\<close>

text \<open>
  Claim C6. When \<^verbatim>\<open>Parents()\<close> yields the parent identifiers, \<^verbatim>\<open>MissingDependencies()\<close>
  returns, with a nil error, exactly the set of those parents whose resolution through
  the manager fails or whose resolved status is not Accepted; hence the set is empty
  if and only if every parent resolves to an Accepted vertex. Whenever the set is not
  empty, \<^verbatim>\<open>Execute()\<close> returns the error "attempting to execute blocked vertex" and
  increments the dropped counter once; the accepted counter, the vertex (its status
  included) and the manager are left as they were.
\<close>

theorem MissingDependencies_gating:
  "vtxParents (vtx v) = Inr parentIDs \<Longrightarrow>
     MissingDependencies v = ({p \<in> set parentIDs. parentMissing (mgr v) p}, None)
   \<and> ((fst (MissingDependencies v) = {}) =
        (\<forall>p \<in> set parentIDs. \<exists>parent. GetVertex (mgr v) p = Inr parent
                                       \<and> vtxStatus parent = Accepted))
   \<and> (fst (MissingDependencies v) \<noteq> {} \<longrightarrow>
        fst (Execute v) = Some (New ''attempting to execute blocked vertex'')
      \<and> numDropped (snd (Execute v)) = numDropped v + 1
      \<and> numAccepted (snd (Execute v)) = numAccepted v
      \<and> vtx (snd (Execute v)) = vtx v
      \<and> mgr (snd (Execute v)) = mgr v)"
proof (intro conjI impI)
  assume p: "vtxParents (vtx v) = Inr parentIDs"
  show "MissingDependencies v = ({p \<in> set parentIDs. parentMissing (mgr v) p}, None)"
    by (rule MissingDependencies_Parents_ok [OF p])
  show "(fst (MissingDependencies v) = {}) =
        (\<forall>p \<in> set parentIDs. \<exists>parent. GetVertex (mgr v) p = Inr parent
                                       \<and> vtxStatus parent = Accepted)"
    by (auto simp: MissingDependencies_Parents_ok [OF p] not_parentMissing_iff [symmetric])
next
  assume "fst (MissingDependencies v) \<noteq> {}"
  note e = Execute_blocked [OF this]
  show "fst (Execute v) = Some (New ''attempting to execute blocked vertex'')"
    "numDropped (snd (Execute v)) = numDropped v + 1"
    "numAccepted (snd (Execute v)) = numAccepted v"
    "vtx (snd (Execute v)) = vtx v"
    "mgr (snd (Execute v)) = mgr v"
    by (simp_all add: e)
qed

text \<open>
  Claim C6, witness: a job whose vertex has the parents 1 (known and accepted) and 2
  (unknown to the manager).
\<close>

theorem MissingDependencies_gating_witness:
  "vtxParents (vtx (exampleJob blockedVertex exampleManager)) = Inr [1, 2]
   \<and> fst (MissingDependencies (exampleJob blockedVertex exampleManager)) = {2}
   \<and> fst (Execute (exampleJob blockedVertex exampleManager))
       = Some (New ''attempting to execute blocked vertex'')
   \<and> numDropped (snd (Execute (exampleJob blockedVertex exampleManager))) = 1
   \<and> vtxStatus (vtx (snd (Execute (exampleJob blockedVertex exampleManager)))) = Processing"
proof -
  have p: "vtxParents (vtx (exampleJob blockedVertex exampleManager)) = Inr [1, 2]"
    by (simp add: exampleJob_def blockedVertex_def exampleManager_def acceptedParent_def)
  have m: "{p \<in> set [1, 2 :: ID]. parentMissing (mgr (exampleJob blockedVertex exampleManager)) p}
           = {2}"
    by (auto simp: exampleJob_def blockedVertex_def exampleManager_def acceptedParent_def parentMissing_def)
  show ?thesis
    using MissingDependencies_gating [OF p] p m by (simp add: exampleJob_def blockedVertex_def exampleManager_def acceptedParent_def)
qed

subsection \<open>Transaction gating\<close>

text \<open>
  Claim C7. When the missing-dependency set is computed and empty and the vertex
  references at least one transaction whose status is not Accepted, \<^verbatim>\<open>Execute()\<close>
  returns nil, increments the dropped counter once and writes one warning; \<^verbatim>\<open>Accept()\<close>
  is not called, the vertex keeps its status, and neither the accepted counter nor the
  manager changes.
\<close>

theorem Execute_transaction_gating:
  assumes "MissingDependencies v = ({}, None)"
    and "vtxTxs (vtx v) = Inr txs"
    and "\<exists>tx \<in> set txs. txStatus tx \<noteq> Accepted"
  shows "fst (Execute v) = None
       \<and> numDropped (snd (Execute v)) = numDropped v + 1
       \<and> log (snd (Execute v))
          = log v @ [''attempting to execute vertex with non-accepted transactions'']
       \<and> vtx (snd (Execute v)) = vtx v
       \<and> acceptCalls (vtx (snd (Execute v))) = acceptCalls (vtx v)
       \<and> vtxStatus (vtx (snd (Execute v))) = vtxStatus (vtx v)
       \<and> numAccepted (snd (Execute v)) = numAccepted v
       \<and> mgr (snd (Execute v)) = mgr v"
proof -
  have "txsLoop txs" using assms(3) by (simp add: txsLoop_iff)
  then have "Execute v =
      (None, v\<lparr>numDropped := numDropped v + 1,
               log := log v @ [''attempting to execute vertex with non-accepted transactions'']\<rparr>)"
    using assms(1,2) by (simp add: Execute_def)
  then show ?thesis by simp
qed

text \<open>
  Claim C7, witness: a Processing vertex with an accepted parent and two transactions,
  the second of them still Processing.
\<close>

theorem Execute_transaction_gating_witness:
  "fst (Execute (exampleJob pendingTxVertex exampleManager)) = None
   \<and> numDropped (snd (Execute (exampleJob pendingTxVertex exampleManager))) = 1
   \<and> acceptCalls (vtx (snd (Execute (exampleJob pendingTxVertex exampleManager)))) = 0
   \<and> vtxStatus (vtx (snd (Execute (exampleJob pendingTxVertex exampleManager)))) = Processing"
proof -
  let ?v = "exampleJob pendingTxVertex exampleManager"
  have d: "MissingDependencies ?v = ({}, None)"
    by (simp add: MissingDependencies_def exampleJob_def pendingTxVertex_def exampleManager_def acceptedParent_def)
  have t: "vtxTxs (vtx ?v) = Inr [\<lparr>txStatus = Accepted\<rparr>, \<lparr>txStatus = Processing\<rparr>]"
    by (simp add: exampleJob_def pendingTxVertex_def exampleManager_def acceptedParent_def)
  have n: "\<exists>tx \<in> set [\<lparr>txStatus = Accepted\<rparr>, \<lparr>txStatus = Processing\<rparr>]. txStatus tx \<noteq> Accepted"
    by simp
  show ?thesis
    using Execute_transaction_gating [OF d t n] by (simp add: exampleJob_def pendingTxVertex_def exampleManager_def acceptedParent_def)
qed

subsection \<open>Errors of accepting and saving\<close>

text \<open>
  Claim C9, as stated, fails: when \<^verbatim>\<open>Accept()\<close> fails with \<^verbatim>\<open>errors.New("boom")\<close> on the
  vertex 7, the error returned by \<^verbatim>\<open>Execute()\<close> is built from the format
  "failed to accept vertex in bootstrapping: %w" and the underlying error alone. The
  identifier 7 is not among what the message is built from, and the very same error
  is returned for the vertex 8.
\<close>

theorem Execute_error_context_counterexample:
  "fst (Execute (exampleJob (readyVertex 7 (Some (New ''boom''))) exampleManager))
     = Some (Errorf ''failed to accept vertex in bootstrapping: %w'' [ArgErr (New ''boom'')])
   \<and> vtxID (vtx (exampleJob (readyVertex 7 (Some (New ''boom''))) exampleManager)) = 7
   \<and> 7 \<notin> errorIDs (the (fst (Execute
            (exampleJob (readyVertex 7 (Some (New ''boom''))) exampleManager))))
   \<and> fst (Execute (exampleJob (readyVertex 8 (Some (New ''boom''))) exampleManager))
     = fst (Execute (exampleJob (readyVertex 7 (Some (New ''boom''))) exampleManager))"
  by (simp add: Execute_def MissingDependencies_def Accept_def exampleJob_def readyVertex_def exampleManager_def acceptedParent_def)

text \<open>
  Claim C9, amended. For a job that reaches the acceptance of a Processing vertex (no
  missing dependency, every transaction Accepted): if \<^verbatim>\<open>Accept()\<close> fails, \<^verbatim>\<open>Execute()\<close>
  returns the underlying error wrapped with the context "failed to accept vertex in
  bootstrapping", whose message names exactly the identifiers that the underlying
  error names; if \<^verbatim>\<open>Accept()\<close> succeeds and the manager's save fails, \<^verbatim>\<open>Execute()\<close>
  returns an error formatted from the vertex's identifier and the underlying error,
  so its message identifies the vertex.
\<close>

theorem Execute_error_context:
  assumes "MissingDependencies v = ({}, None)"
    and "vtxTxs (vtx v) = Inr txs"
    and "\<forall>tx \<in> set txs. txStatus tx = Accepted"
    and "vtxStatus (vtx v) = Processing"
  shows "(vtxAcceptErr (vtx v) = Some err \<longrightarrow>
            fst (Execute v)
              = Some (Errorf ''failed to accept vertex in bootstrapping: %w'' [ArgErr err])
          \<and> errorIDs (the (fst (Execute v))) = errorIDs err)
       \<and> (vtxAcceptErr (vtx v) = None
            \<and> SaveVertexErr (mgr v) (snd (Accept (vtx v))) = Some err \<longrightarrow>
            fst (Execute v)
              = Some (Errorf ''failed to save block %s to VM's database: %s''
                        [ArgID (vtxID (vtx v)), ArgErr err])
          \<and> vtxID (vtx v) \<in> errorIDs (the (fst (Execute v))))"
proof (intro conjI impI)
  note e = Execute_Processing [OF assms]
  {
    assume a: "vtxAcceptErr (vtx v) = Some err"
    then show "fst (Execute v)
        = Some (Errorf ''failed to accept vertex in bootstrapping: %w'' [ArgErr err])"
      by (simp add: e Accept_def)
    then show "errorIDs (the (fst (Execute v))) = errorIDs err"
      by simp
  }
  {
    assume s: "vtxAcceptErr (vtx v) = None
               \<and> SaveVertexErr (mgr v) (snd (Accept (vtx v))) = Some err"
    then have a: "Accept (vtx v)
                    = (None, (vtx v)\<lparr>vtxStatus := Accepted,
                                       acceptCalls := acceptCalls (vtx v) + 1\<rparr>)"
      by (simp add: Accept_def)
    have "SaveVertexErr (mgr v)
            ((vtx v)\<lparr>vtxStatus := Accepted, acceptCalls := acceptCalls (vtx v) + 1\<rparr>)
          = Some err"
      using s a by simp
    then show "fst (Execute v)
        = Some (Errorf ''failed to save block %s to VM's database: %s''
                  [ArgID (vtxID (vtx v)), ArgErr err])"
      by (simp add: e a SaveVertex_def Let_def)
    then show "vtxID (vtx v) \<in> errorIDs (the (fst (Execute v)))"
      by simp
  }
qed

text \<open>
  Claim C9, witness of the amended statement: one job whose \<^verbatim>\<open>Accept()\<close> fails, and one
  whose manager refuses to save.
\<close>

theorem Execute_error_context_witness:
  "fst (Execute (exampleJob (readyVertex 7 (Some (New ''boom''))) exampleManager))
     = Some (Errorf ''failed to accept vertex in bootstrapping: %w'' [ArgErr (New ''boom'')])
   \<and> fst (Execute (exampleJob (readyVertex 7 None) failingSaveManager))
     = Some (Errorf ''failed to save block %s to VM's database: %s''
               [ArgID 7, ArgErr (New ''disk full'')])
   \<and> 7 \<in> errorIDs (the (fst (Execute (exampleJob (readyVertex 7 None) failingSaveManager))))"
proof -
  let ?a = "exampleJob (readyVertex 7 (Some (New ''boom''))) exampleManager"
  let ?s = "exampleJob (readyVertex 7 None) failingSaveManager"
  have da: "MissingDependencies ?a = ({}, None)"
    and ds: "MissingDependencies ?s = ({}, None)"
    by (simp_all add: MissingDependencies_def exampleJob_def readyVertex_def exampleManager_def acceptedParent_def failingSaveManager_def)
  have ta: "vtxTxs (vtx ?a) = Inr [\<lparr>txStatus = Accepted\<rparr>]"
    and ts: "vtxTxs (vtx ?s) = Inr [\<lparr>txStatus = Accepted\<rparr>]"
    by (simp_all add: exampleJob_def readyVertex_def exampleManager_def acceptedParent_def)
  have n: "\<forall>tx \<in> set [\<lparr>txStatus = Accepted\<rparr>]. txStatus tx = Accepted" by simp
  have pa: "vtxStatus (vtx ?a) = Processing" and ps: "vtxStatus (vtx ?s) = Processing"
    by (simp_all add: exampleJob_def readyVertex_def exampleManager_def acceptedParent_def)
  show ?thesis
    using Execute_error_context [OF da ta n pa, of "New ''boom''"]
      Execute_error_context [OF ds ts n ps, of "New ''disk full''"]
    by (simp add: exampleJob_def readyVertex_def exampleManager_def acceptedParent_def failingSaveManager_def)
qed

subsection \<open>Failure of the parent list\<close>

text \<open>
  Claim C10. If \<^verbatim>\<open>Parents()\<close> fails, \<^verbatim>\<open>MissingDependencies()\<close> returns the empty set
  together with that error, and \<^verbatim>\<open>Execute()\<close> returns that same error and leaves the
  job as it was: neither the dropped nor the accepted counter is incremented.
\<close>

theorem Parents_failure_not_counted:
  assumes "vtxParents (vtx v) = Inl err"
  shows "MissingDependencies v = ({}, Some err)
       \<and> Execute v = (Some err, v)
       \<and> numDropped (snd (Execute v)) = numDropped v
       \<and> numAccepted (snd (Execute v)) = numAccepted v"
  using assms by (simp add: MissingDependencies_def Execute_def)

text \<open>Claim C10, witness: a vertex whose \<^verbatim>\<open>Parents()\<close> reports an error.\<close>

theorem Parents_failure_not_counted_witness:
  "MissingDependencies (exampleJob noParentsVertex exampleManager)
     = ({}, Some (New ''parents unavailable''))
   \<and> fst (Execute (exampleJob noParentsVertex exampleManager)) = Some (New ''parents unavailable'')
   \<and> numDropped (snd (Execute (exampleJob noParentsVertex exampleManager))) = 0
   \<and> numAccepted (snd (Execute (exampleJob noParentsVertex exampleManager))) = 0"
proof -
  have p: "vtxParents (vtx (exampleJob noParentsVertex exampleManager))
           = Inl (New ''parents unavailable'')"
    by (simp add: exampleJob_def noParentsVertex_def exampleManager_def)
  show ?thesis
    using Parents_failure_not_counted [OF p] by (simp add: exampleJob_def noParentsVertex_def exampleManager_def)
qed

section \<open>Properties of the block cache\<close>

subsection \<open>The bounded caches\<close>

lemma map_of_filter_key:
  "map_of (filter (\<lambda>e. fst e \<noteq> k) es) j = (if j = k then None else map_of es j)"
  by (induction es) auto

lemma fst_Get: "fst (Get l k) = map_of (entries l) k"
  by (simp add: Get_def split: option.splits)

lemma Get_miss: "map_of (entries l) k = None \<Longrightarrow> Get l k = (None, l)"
  by (simp add: Get_def)

lemma map_of_Get: "map_of (entries (snd (Get l k))) = map_of (entries l)"
  by (auto simp: Get_def map_of_filter_key fun_eq_iff split: option.splits)

lemma keys_map_of: "(k \<in> keys l) = (map_of (entries l) k \<noteq> None)"
  by (simp add: keys_def map_of_eq_None_iff)

lemma keys_Get: "keys (snd (Get l k)) = keys l"
  by (auto simp: keys_map_of map_of_Get)

lemma distinct_Get:
  "distinct (map fst (entries l)) \<Longrightarrow> distinct (map fst (entries (snd (Get l k))))"
  by (auto simp: Get_def distinct_map_filter split: option.splits)

lemma keys_Put_subset: "keys (Put l k v) \<subseteq> insert k (keys l)"
proof -
  have "set (take (nat (Size l)) ((k, v) # filter (\<lambda>e. fst e \<noteq> k) (entries l)))
        \<subseteq> set ((k, v) # filter (\<lambda>e. fst e \<noteq> k) (entries l))"
    by (rule set_take_subset)
  then show ?thesis by (auto simp: Put_def keys_def)
qed

lemma distinct_Put:
  "distinct (map fst (entries l)) \<Longrightarrow> distinct (map fst (entries (Put l k v)))"
proof -
  assume d: "distinct (map fst (entries l))"
  have "distinct (map fst ((k, v) # filter (\<lambda>e. fst e \<noteq> k) (entries l)))"
    using d by (auto simp: distinct_map_filter)
  then have "distinct (take (nat (Size l))
               (map fst ((k, v) # filter (\<lambda>e. fst e \<noteq> k) (entries l))))"
    by (rule distinct_take)
  then have "distinct (map fst (take (nat (Size l))
               ((k, v) # filter (\<lambda>e. fst e \<noteq> k) (entries l))))"
    by (simp only: take_map)
  then show ?thesis by (simp add: Put_def)
qed

lemma map_of_Put_same:
  "0 < Size l \<Longrightarrow> map_of (entries (Put l k v)) k = Some v"
proof -
  assume "0 < Size l"
  then obtain n where "nat (Size l) = Suc n" by (cases "nat (Size l)") auto
  then show ?thesis by (simp add: Put_def)
qed


lemma keys_Evict: "keys (Evict l k) = keys l - {k}"
  by (auto simp: Evict_def keys_def)

lemma distinct_Evict:
  "distinct (map fst (entries l)) \<Longrightarrow> distinct (map fst (entries (Evict l k)))"
  by (simp add: Evict_def distinct_map_filter)

lemma keys_Flush: "keys (Flush l) = {}"
  by (simp add: Flush_def keys_def)

subsection \<open>Lookup in the positive tiers\<close>

text \<open>
  \<^verbatim>\<open>getCachedBlock\<close> returns what the specification's lookup returns; it may refresh an
  entry of a bounded cache but changes neither the identifiers nor the wrappers held.
\<close>

lemma canonical_None_iff: "(canonical c i = None) = (i \<notin> positiveKeys c)"
  by (auto simp: canonical_def positiveKeys_def keys_map_of split: option.splits)

lemma getCachedBlock_fst: "fst (getCachedBlock c i) = canonical c i"
  by (simp add: getCachedBlock_def canonical_def Get_def split: option.splits)

lemma getCachedBlock_miss: "canonical c i = None \<Longrightarrow> getCachedBlock c i = (None, c)"
  by (simp add: getCachedBlock_def canonical_def Get_def split: option.splits)

lemma getCachedBlock_decided:
  "decidedBlocks (snd (getCachedBlock c i)) = decidedBlocks c
   \<or> decidedBlocks (snd (getCachedBlock c i)) = snd (Get (decidedBlocks c) i)"
  by (simp add: getCachedBlock_def Get_def split: option.splits)

lemma getCachedBlock_unverified:
  "unverifiedBlocks (snd (getCachedBlock c i)) = unverifiedBlocks c
   \<or> unverifiedBlocks (snd (getCachedBlock c i)) = snd (Get (unverifiedBlocks c) i)"
  by (simp add: getCachedBlock_def Get_def split: option.splits)

lemma getCachedBlock_other:
  "verifiedBlocks (snd (getCachedBlock c i)) = verifiedBlocks c"
  "missingBlocks (snd (getCachedBlock c i)) = missingBlocks c"
  "allocated (snd (getCachedBlock c i)) = allocated c"
  "storeCalls (snd (getCachedBlock c i)) = storeCalls c"
  "getBlock (snd (getCachedBlock c i)) = getBlock c"
  "unmarshalBlock (snd (getCachedBlock c i)) = unmarshalBlock c"
  "buildBlock (snd (getCachedBlock c i)) = buildBlock c"
  "getStatus (snd (getCachedBlock c i)) = getStatus c"
  "lastAcceptedBlock (snd (getCachedBlock c i)) = lastAcceptedBlock c"
  by (simp_all add: getCachedBlock_def Get_def split: option.splits)

lemma getCachedBlock_keys:
  "keys (decidedBlocks (snd (getCachedBlock c i))) = keys (decidedBlocks c)"
  "keys (unverifiedBlocks (snd (getCachedBlock c i))) = keys (unverifiedBlocks c)"
  using getCachedBlock_decided [of c i] getCachedBlock_unverified [of c i]
  by (auto simp: keys_Get)

lemma getCachedBlock_map_of:
  "map_of (entries (decidedBlocks (snd (getCachedBlock c i)))) = map_of (entries (decidedBlocks c))"
  "map_of (entries (unverifiedBlocks (snd (getCachedBlock c i))))
     = map_of (entries (unverifiedBlocks c))"
  using getCachedBlock_decided [of c i] getCachedBlock_unverified [of c i]
  by (auto simp: map_of_Get)

lemma getCachedBlock_distinct:
  "distinct (map fst (entries (decidedBlocks c))) \<Longrightarrow>
   distinct (map fst (entries (decidedBlocks (snd (getCachedBlock c i)))))"
  "distinct (map fst (entries (unverifiedBlocks c))) \<Longrightarrow>
   distinct (map fst (entries (unverifiedBlocks (snd (getCachedBlock c i)))))"
  using getCachedBlock_decided [of c i] getCachedBlock_unverified [of c i]
  by (auto simp: distinct_Get)

lemma getCachedBlock_canonical: "canonical (snd (getCachedBlock c i)) = canonical c"
  by (simp add: canonical_def fun_eq_iff getCachedBlock_other getCachedBlock_map_of
      cong: option.case_cong)

lemma getCachedBlock_positiveKeys: "positiveKeys (snd (getCachedBlock c i)) = positiveKeys c"
  by (simp add: positiveKeys_def getCachedBlock_other getCachedBlock_keys)

lemma getCachedBlock_tierExclusive:
  "tierExclusive c \<Longrightarrow> tierExclusive (snd (getCachedBlock c i))"
  by (simp add: tierExclusive_def getCachedBlock_other getCachedBlock_keys
      getCachedBlock_distinct getCachedBlock_positiveKeys)


subsection \<open>The operations, case by case\<close>

lemma produceGetStatus_allocated:
  "produceGetStatus (c\<lparr>allocated := n\<rparr>) f blk = produceGetStatus c f blk"
  by (simp add: produceGetStatus_def)

lemma callGetStatus_allocated:
  "callGetStatus (c\<lparr>allocated := n\<rparr>) blk = callGetStatus c blk"
  by (simp add: callGetStatus_def produceGetStatus_allocated split: getStatusFunc.splits)

lemma addBlockOutsideConsensus_cases:
  "(\<exists>r. addBlockOutsideConsensus c blk = (r, c\<lparr>allocated := allocated c + 1\<rparr>)
        \<and> (\<forall>w. r \<noteq> Ok w))
   \<or> (\<exists>w. addBlockOutsideConsensus c blk =
            (Ok w, c\<lparr>allocated := allocated c + 1,
                     decidedBlocks := Put (decidedBlocks c) (blkID blk) w\<rparr>))
   \<or> (\<exists>w. addBlockOutsideConsensus c blk =
            (Ok w, c\<lparr>allocated := allocated c + 1,
                     unverifiedBlocks := Put (unverifiedBlocks c) (blkID blk) w\<rparr>))"
  by (auto simp: addBlockOutsideConsensus_def Let_def callGetStatus_allocated
      split: option.splits prod.splits)


lemma GetBlock_hit:
  "canonical c i = Some w \<Longrightarrow> GetBlock c i = (Ok w, snd (getCachedBlock c i))"
  using getCachedBlock_fst [of c i]
  by (cases "getCachedBlock c i") (simp add: GetBlock_def)

lemma GetBlock_missing_hit:
  assumes "canonical c i = None" and "i \<in> keys (missingBlocks c)"
  shows "GetBlock c i
     = (Err ErrBlockNotFound, c\<lparr>missingBlocks := snd (Get (missingBlocks c) i)\<rparr>)"
proof -
  have "fst (Get (missingBlocks c) i) = Some ()"
    using assms(2) by (simp add: fst_Get keys_map_of)
  then obtain m where g: "Get (missingBlocks c) i = (Some (), m)"
    by (cases "Get (missingBlocks c) i") simp
  show ?thesis
    by (simp add: GetBlock_def getCachedBlock_miss [OF assms(1)] g)
qed

lemma GetBlock_store:
  assumes "canonical c i = None" and "i \<notin> keys (missingBlocks c)"
  shows "GetBlock c i =
     (case getBlock c i of
        Inl err \<Rightarrow>
          if err = ErrBlockNotFound then
            (Err err, c\<lparr>missingBlocks := Put (missingBlocks c) i (),
                        storeCalls := storeCalls c @ [i]\<rparr>)
          else (Err err, c\<lparr>storeCalls := storeCalls c @ [i]\<rparr>)
      | Inr blk \<Rightarrow> addBlockOutsideConsensus (c\<lparr>storeCalls := storeCalls c @ [i]\<rparr>) blk)"
proof -
  have "map_of (entries (missingBlocks c)) i = None"
    using assms(2) by (simp add: keys_def map_of_eq_None_iff)
  then have g: "Get (missingBlocks c) i = (None, missingBlocks c)"
    by (rule Get_miss)
  show ?thesis
    by (simp add: GetBlock_def getCachedBlock_miss [OF assms(1)] g Let_def split: sum.splits)
qed

lemma ParseBlock_hit:
  "unmarshalBlock c b = Inr blk \<Longrightarrow> canonical c (blkID blk) = Some w \<Longrightarrow>
   ParseBlock c b = (Ok w, snd (getCachedBlock c (blkID blk)))"
  using getCachedBlock_fst [of c "blkID blk"]
  by (cases "getCachedBlock c (blkID blk)") (simp add: ParseBlock_def)

lemma ParseBlock_miss:
  "unmarshalBlock c b = Inr blk \<Longrightarrow> canonical c (blkID blk) = None \<Longrightarrow>
   ParseBlock c b =
     addBlockOutsideConsensus
       (c\<lparr>missingBlocks := Evict (missingBlocks c) (blkID blk)\<rparr>) blk"
  by (simp add: ParseBlock_def getCachedBlock_miss)

lemma BuildBlock_hit:
  "buildBlock c () = Inr blk \<Longrightarrow> canonical c (blkID blk) = Some w \<Longrightarrow>
   BuildBlock c = (Ok w, snd (getCachedBlock c (blkID blk)))"
  using getCachedBlock_fst [of c "blkID blk"]
  by (cases "getCachedBlock c (blkID blk)") (simp add: BuildBlock_def)

lemma BuildBlock_miss:
  "buildBlock c () = Inr blk \<Longrightarrow> canonical c (blkID blk) = None \<Longrightarrow>
   BuildBlock c =
     addBlockOutsideConsensus
       (c\<lparr>missingBlocks := Evict (missingBlocks c) (blkID blk)\<rparr>) blk"
  by (simp add: BuildBlock_def getCachedBlock_miss)



subsection \<open>Preservation of tier exclusivity\<close>

lemma tierExclusive_storeCalls:
  "tierExclusive (c\<lparr>storeCalls := s\<rparr>) = tierExclusive c"
  by (simp add: tierExclusive_def positiveKeys_def)

lemma tierExclusive_Evict:
  "tierExclusive c \<Longrightarrow> tierExclusive (c\<lparr>missingBlocks := Evict (missingBlocks c) i\<rparr>)"
  by (auto simp: tierExclusive_def positiveKeys_def keys_Evict distinct_Evict)

lemma addBlockOutsideConsensus_tierExclusive:
  assumes inv: "tierExclusive c"
    and pos: "blkID blk \<notin> positiveKeys c"
    and neg: "blkID blk \<notin> keys (missingBlocks c)"
  shows "tierExclusive (snd (addBlockOutsideConsensus c blk))"
proof -
  let ?i = "blkID blk"
  consider
    (fail) r where "addBlockOutsideConsensus c blk = (r, c\<lparr>allocated := allocated c + 1\<rparr>)"
  | (decided) w where "addBlockOutsideConsensus c blk =
            (Ok w, c\<lparr>allocated := allocated c + 1,
                     decidedBlocks := Put (decidedBlocks c) ?i w\<rparr>)"
  | (unverified) w where "addBlockOutsideConsensus c blk =
            (Ok w, c\<lparr>allocated := allocated c + 1,
                     unverifiedBlocks := Put (unverifiedBlocks c) ?i w\<rparr>)"
    using addBlockOutsideConsensus_cases [of c blk] by blast
  then show ?thesis
  proof cases
    case fail
    then show ?thesis using inv by (simp add: tierExclusive_def positiveKeys_def)
  next
    case decided
    have sub: "keys (Put (decidedBlocks c) ?i w) \<subseteq> insert ?i (keys (decidedBlocks c))"
      by (rule keys_Put_subset)
    have d: "distinct (map fst (entries (Put (decidedBlocks c) ?i w)))"
      using inv by (simp add: tierExclusive_def distinct_Put)
    show ?thesis
      using inv pos neg sub d unfolding decided tierExclusive_def positiveKeys_def
      by (simp add: disjoint_iff subset_iff) blast
  next
    case unverified
    have sub: "keys (Put (unverifiedBlocks c) ?i w) \<subseteq> insert ?i (keys (unverifiedBlocks c))"
      by (rule keys_Put_subset)
    have d: "distinct (map fst (entries (Put (unverifiedBlocks c) ?i w)))"
      using inv by (simp add: tierExclusive_def distinct_Put)
    show ?thesis
      using inv pos neg sub d unfolding unverified tierExclusive_def positiveKeys_def
      by (simp add: disjoint_iff subset_iff) blast
  qed
qed

lemma GetBlock_tierExclusive:
  assumes inv: "tierExclusive c"
    and store: "\<forall>blk. getBlock c i = Inr blk \<longrightarrow> blkID blk = i"
  shows "tierExclusive (snd (GetBlock c i))"
proof (cases "canonical c i")
  case (Some w)
  then show ?thesis using inv by (simp add: GetBlock_hit getCachedBlock_tierExclusive)
next
  case None
  then have pos: "i \<notin> positiveKeys c" by (simp add: canonical_None_iff)
  show ?thesis
  proof (cases "i \<in> keys (missingBlocks c)")
    case True
    then show ?thesis
      using inv by (simp add: GetBlock_missing_hit [OF None] tierExclusive_def positiveKeys_def
          keys_Get distinct_Get)
  next
    case False
    show ?thesis
    proof (cases "getBlock c i")
      case (Inl err)
      have sub: "keys (Put (missingBlocks c) i ()) \<subseteq> insert i (keys (missingBlocks c))"
        by (rule keys_Put_subset)
      have d: "distinct (map fst (entries (Put (missingBlocks c) i ())))"
        using inv by (simp add: tierExclusive_def distinct_Put)
      have "tierExclusive (c\<lparr>missingBlocks := Put (missingBlocks c) i (),
                              storeCalls := storeCalls c @ [i]\<rparr>)"
        using inv pos sub d unfolding tierExclusive_def positiveKeys_def
        by (simp add: disjoint_iff subset_iff) blast
      then show ?thesis
        using inv by (simp add: GetBlock_store [OF None False] Inl tierExclusive_storeCalls)
    next
      case (Inr blk)
      then have i: "blkID blk = i" using store by simp
      have "tierExclusive (snd (addBlockOutsideConsensus
                                 (c\<lparr>storeCalls := storeCalls c @ [i]\<rparr>) blk))"
        using inv pos False
        by (intro addBlockOutsideConsensus_tierExclusive)
           (simp_all add: i tierExclusive_storeCalls positiveKeys_def)
      then show ?thesis by (simp add: GetBlock_store [OF None False] Inr)
    qed
  qed
qed

lemma addBlock_after_Evict_tierExclusive:
  assumes inv: "tierExclusive c" and none: "canonical c (blkID blk) = None"
  shows "tierExclusive (snd (addBlockOutsideConsensus
           (c\<lparr>missingBlocks := Evict (missingBlocks c) (blkID blk)\<rparr>) blk))"
proof -
  have pos: "blkID blk \<notin> positiveKeys c" using none by (simp add: canonical_None_iff)
  show ?thesis
    using pos by (intro addBlockOutsideConsensus_tierExclusive tierExclusive_Evict [OF inv])
      (simp_all add: positiveKeys_def keys_Evict)
qed

lemma ParseBlock_tierExclusive:
  assumes inv: "tierExclusive c"
  shows "tierExclusive (snd (ParseBlock c b))"
proof (cases "unmarshalBlock c b")
  case (Inl err)
  then show ?thesis using inv by (simp add: ParseBlock_def)
next
  case (Inr blk)
  show ?thesis
  proof (cases "canonical c (blkID blk)")
    case (Some w)
    then show ?thesis
      using inv by (simp add: ParseBlock_hit [OF Inr] getCachedBlock_tierExclusive)
  next
    case None
    then show ?thesis
      using inv by (simp add: ParseBlock_miss [OF Inr] addBlock_after_Evict_tierExclusive)
  qed
qed

lemma BuildBlock_tierExclusive:
  assumes inv: "tierExclusive c"
  shows "tierExclusive (snd (BuildBlock c))"
proof (cases "buildBlock c ()")
  case (Inl err)
  then show ?thesis using inv by (simp add: BuildBlock_def)
next
  case (Inr blk)
  show ?thesis
  proof (cases "canonical c (blkID blk)")
    case (Some w)
    then show ?thesis
      using inv by (simp add: BuildBlock_hit [OF Inr] getCachedBlock_tierExclusive)
  next
    case None
    then show ?thesis
      using inv by (simp add: BuildBlock_miss [OF Inr] addBlock_after_Evict_tierExclusive)
  qed
qed

lemma FlushCaches_tierExclusive: "tierExclusive (FlushCaches c)"
  by (simp add: FlushCaches_def tierExclusive_def positiveKeys_def keys_Flush)
     (simp add: Flush_def)

lemma distinct_Put_empty: "distinct (map fst (entries (Put \<lparr>Size = n, entries = []\<rparr> k v)))"
  by (rule distinct_Put) simp

lemma NewCache_tierExclusive: "tierExclusive (NewCache config)"
  by (simp add: NewCache_def tierExclusive_def positiveKeys_def Let_def keys_def
      distinct_Put_empty)

lemma NewMeteredCache_tierExclusive:
  "NewMeteredCache registerer namespace config = Inr c \<Longrightarrow> tierExclusive c"
  by (auto simp: NewMeteredCache_def metercacher_New_def tierExclusive_def positiveKeys_def
      Let_def keys_def distinct_Put_empty split: option.splits)

subsection \<open>Height-inferred status\<close>

text \<open>
  Claim C1, as stated, fails: the resolver first asserts that the block is of a type
  with \<^verbatim>\<open>SetStatus\<close>. A block of another type, at height 1 above the last accepted
  height 0, is answered with Unknown and an error, and its status is not touched.
\<close>

theorem produceGetStatus_counterexample:
  "blkHeight (exampleBlock 2 1 Unknown False)
     > blkHeight (Block (lastAcceptedBlock (NewCache (exampleConfig (Some (\<lambda>h. Inr 1))))))
   \<and> produceGetStatus (NewCache (exampleConfig (Some (\<lambda>h. Inr 1)))) (\<lambda>h. Inr 1)
        (exampleBlock 2 1 Unknown False)
     = ((Unknown,
         Some (Errorf
           ''expected block to match chain Block interface but found block of type %T''
           [ArgType ''*snowman.TestBlock''])),
        exampleBlock 2 1 Unknown False)"
  by (simp add: produceGetStatus_def NewCache_def exampleConfig_def exampleBlock_def Let_def)

text \<open>
  Claim C1, amended. For every block of a type with \<^verbatim>\<open>SetStatus\<close>: if its height is
  above the height of the last accepted block, the resolver returns Processing with a
  nil error and the block's status becomes Processing; if its height is at most that
  height and the oracle answers with an identifier, the resolver returns Accepted and
  the status becomes Accepted when that identifier is the block's, and returns
  Rejected and the status becomes Rejected otherwise. For a block of any other type
  the resolver returns Unknown with an error and leaves the block as it is.
\<close>

theorem produceGetStatus_by_height:
  "(hasSetStatus blk \<longrightarrow>
      (blkHeight blk > blkHeight (Block (lastAcceptedBlock c)) \<longrightarrow>
         produceGetStatus c getBlockIDAtHeight blk
           = ((Processing, None), blk\<lparr>blkStatus := Processing\<rparr>))
    \<and> (blkHeight blk \<le> blkHeight (Block (lastAcceptedBlock c))
         \<and> getBlockIDAtHeight (blkHeight blk) = Inr acceptedID \<longrightarrow>
         produceGetStatus c getBlockIDAtHeight blk
           = (if acceptedID = blkID blk
              then ((Accepted, None), blk\<lparr>blkStatus := Accepted\<rparr>)
              else ((Rejected, None), blk\<lparr>blkStatus := Rejected\<rparr>))))
   \<and> (\<not> hasSetStatus blk \<longrightarrow>
         produceGetStatus c getBlockIDAtHeight blk
           = ((Unknown,
               Some (Errorf
                 ''expected block to match chain Block interface but found block of type %T''
                 [ArgType (goType blk)])),
              blk))"
proof (cases "hasSetStatus blk")
  case False
  then show ?thesis by (simp add: produceGetStatus_def)
next
  case True
  show ?thesis
  proof (cases "blkHeight blk > blkHeight (Block (lastAcceptedBlock c))")
    case above: True
    then have "produceGetStatus c getBlockIDAtHeight blk
                 = ((Processing, None), blk\<lparr>blkStatus := Processing\<rparr>)"
      using True by (simp add: produceGetStatus_def SetStatus_def)
    moreover have "\<not> blkHeight blk \<le> blkHeight (Block (lastAcceptedBlock c))"
      using above by simp
    ultimately show ?thesis using True above by simp
  next
    case below: False
    have "produceGetStatus c getBlockIDAtHeight blk
            = (if acceptedID = blkID blk
               then ((Accepted, None), blk\<lparr>blkStatus := Accepted\<rparr>)
               else ((Rejected, None), blk\<lparr>blkStatus := Rejected\<rparr>))"
      if "getBlockIDAtHeight (blkHeight blk) = Inr acceptedID"
      using True below that by (simp add: produceGetStatus_def SetStatus_def)
    then show ?thesis using True below by simp
  qed
qed

text \<open>
  Claim C1, witness of the amended statement: with the last accepted block 1 at height
  0 and an oracle that always answers 1, a block above the tip, the accepted block at
  height 0, a competing block at height 0, and a block without \<^verbatim>\<open>SetStatus\<close>.
\<close>

theorem produceGetStatus_by_height_witness:
  "produceGetStatus (NewCache (exampleConfig (Some (\<lambda>h. Inr 1)))) (\<lambda>h. Inr 1)
        (exampleBlock 2 1 Unknown True)
     = ((Processing, None), exampleBlock 2 1 Processing True)
   \<and> produceGetStatus (NewCache (exampleConfig (Some (\<lambda>h. Inr 1)))) (\<lambda>h. Inr 1)
        (exampleBlock 1 0 Unknown True)
     = ((Accepted, None), exampleBlock 1 0 Accepted True)
   \<and> produceGetStatus (NewCache (exampleConfig (Some (\<lambda>h. Inr 1)))) (\<lambda>h. Inr 1)
        (exampleBlock 2 0 Unknown True)
     = ((Rejected, None), exampleBlock 2 0 Rejected True)
   \<and> fst (fst (produceGetStatus (NewCache (exampleConfig (Some (\<lambda>h. Inr 1)))) (\<lambda>h. Inr 1)
        (exampleBlock 2 1 Unknown False))) = Unknown"
proof -
  let ?c = "NewCache (exampleConfig (Some (\<lambda>h. Inr 1)))"
  have L: "blkHeight (Block (lastAcceptedBlock ?c)) = 0"
    by (simp add: NewCache_def exampleConfig_def exampleBlock_def Let_def)
  show ?thesis
    using produceGetStatus_by_height [of "exampleBlock 2 1 Unknown True" ?c "\<lambda>h. Inr 1" 1]
      produceGetStatus_by_height [of "exampleBlock 1 0 Unknown True" ?c "\<lambda>h. Inr 1" 1]
      produceGetStatus_by_height [of "exampleBlock 2 0 Unknown True" ?c "\<lambda>h. Inr 1" 1]
      produceGetStatus_by_height [of "exampleBlock 2 1 Unknown False" ?c "\<lambda>h. Inr 1" 1]
    by (simp add: L exampleBlock_def)
qed

subsection \<open>The negative cache\<close>




subsection \<open>Tier exclusivity\<close>

lemma reachableByID_reachable: "reachableByID c \<Longrightarrow> reachable c"
  by (induction rule: reachableByID.induct) (auto intro: reachable.intros)

text \<open>
  Claim C3, as stated, fails: \<^verbatim>\<open>GetBlock\<close> files the block that the store returns under
  the identifier of that block, not under the identifier that was asked for. With a
  store that answers the request for block 4 with block 5, \<^verbatim>\<open>GetBlock(5)\<close> puts
  block 5 into the unverified cache and \<^verbatim>\<open>GetBlock(4)\<close> then puts block 5 into the
  decided cache: the identifier 5 is in two positive tiers of a state reached by two
  calls of \<^verbatim>\<open>GetBlock\<close>.
\<close>

theorem reachable_tierExclusive_counterexample:
  "reachable (snd (GetBlock (snd (GetBlock (NewCache mislabellingConfig) 5)) 4))
   \<and> 5 \<in> keys (decidedBlocks (snd (GetBlock (snd (GetBlock (NewCache mislabellingConfig) 5)) 4)))
   \<and> 5 \<in> keys (unverifiedBlocks
                 (snd (GetBlock (snd (GetBlock (NewCache mislabellingConfig) 5)) 4)))
   \<and> \<not> tierExclusive (snd (GetBlock (snd (GetBlock (NewCache mislabellingConfig) 5)) 4))"
proof -
  let ?c = "snd (GetBlock (snd (GetBlock (NewCache mislabellingConfig) 5)) 4)"
  have r: "reachable ?c"
    by (intro reachable.get reachable.construct)
  have d: "5 \<in> keys (decidedBlocks ?c)" and u: "5 \<in> keys (unverifiedBlocks ?c)"
    by (simp_all add: NewCache_def GetBlock_def getCachedBlock_def
        addBlockOutsideConsensus_def callGetStatus_def Get_def Put_def keys_def Let_def
        mislabellingConfig_def mislabellingStore_def exampleConfig_def exampleBlock_def)
  have "keys (decidedBlocks ?c) \<inter> keys (unverifiedBlocks ?c) \<noteq> {}"
    using d u by blast
  then have "\<not> tierExclusive ?c"
    by (simp add: tierExclusive_def)
  then show ?thesis using r d u by simp
qed

text \<open>
  Claim C3, amended. In every state of the cache reachable from \<^verbatim>\<open>NewCache\<close> or
  \<^verbatim>\<open>NewMeteredCache\<close> by any sequence of calls of \<^verbatim>\<open>GetBlock\<close>, \<^verbatim>\<open>ParseBlock\<close>,
  \<^verbatim>\<open>BuildBlock\<close> and \<^verbatim>\<open>FlushCaches\<close> in which every block that the store returns to
  \<^verbatim>\<open>GetBlock\<close> has the identifier that was asked for, every identifier is in at most
  one of the verified map, the decided cache and the unverified cache, and no
  identifier is both in a positive tier and in the missing cache.
\<close>

theorem reachableByID_tierExclusive: "reachableByID c \<Longrightarrow> tierExclusive c"
proof (induction rule: reachableByID.induct)
  case (construct config)
  show ?case by (rule NewCache_tierExclusive)
next
  case (constructMetered registerer namespace config c)
  then show ?case by (rule NewMeteredCache_tierExclusive)
next
  case (get c i)
  then show ?case by (simp add: GetBlock_tierExclusive)
next
  case (parse c b)
  then show ?case by (simp add: ParseBlock_tierExclusive)
next
  case (build c)
  then show ?case by (simp add: BuildBlock_tierExclusive)
next
  case (flush c)
  show ?case by (rule FlushCaches_tierExclusive)
next
  case (collaborators c g u b)
  then show ?case by (simp add: tierExclusive_def positiveKeys_def)
next
  case (heightOracle c f h)
  then show ?case by (simp add: tierExclusive_def positiveKeys_def)
qed

text \<open>
  Claim C3, witness of the amended statement: the state after \<^verbatim>\<open>GetBlock(2)\<close> (the
  store answers with block 2), \<^verbatim>\<open>GetBlock(5)\<close> (not found) and \<^verbatim>\<open>ParseBlock\<close> of the
  bytes of block 5.
\<close>

theorem reachableByID_tierExclusive_witness:
  "reachableByID
     (snd (ParseBlock (snd (GetBlock (snd (GetBlock (NewCache (exampleConfig None)) 2)) 5)) [5]))
   \<and> tierExclusive
        (snd (ParseBlock (snd (GetBlock (snd (GetBlock (NewCache (exampleConfig None)) 2)) 5)) [5]))"
proof -
  let ?c0 = "NewCache (exampleConfig None)"
  let ?c1 = "snd (GetBlock ?c0 2)"
  let ?c2 = "snd (GetBlock ?c1 5)"
  have r0: "reachableByID ?c0" by (rule reachableByID.construct)
  have s0: "\<forall>blk. getBlock ?c0 2 = Inr blk \<longrightarrow> blkID blk = 2"
    by (simp add: NewCache_def exampleConfig_def exampleStore_def exampleBlock_def Let_def)
  have r1: "reachableByID ?c1" by (rule reachableByID.get [OF r0 s0])
  have s1: "\<forall>blk. getBlock ?c1 5 = Inr blk \<longrightarrow> blkID blk = 5"
    by (simp add: NewCache_def GetBlock_def ParseBlock_def BuildBlock_def getCachedBlock_def
      addBlockOutsideConsensus_def callGetStatus_def Get_def Put_def Evict_def Flush_def
      FlushCaches_def keys_def Let_def exampleBlock_def exampleStore_def exampleUnmarshal_def
      exampleBuild_def exampleConfig_def)
  have r2: "reachableByID ?c2" by (rule reachableByID.get [OF r1 s1])
  have r3: "reachableByID (snd (ParseBlock ?c2 [5]))" by (rule reachableByID.parse [OF r2])
  show ?thesis using r3 reachableByID_tierExclusive [OF r3] by simp
qed

subsection \<open>Canonical identity\<close>

text \<open>
  Claim C4. When an identifier has a wrapper in a positive tier (looked up in the
  order verified, decided, unverified), \<^verbatim>\<open>GetBlock\<close> of that identifier,
  \<^verbatim>\<open>ParseBlock\<close> of bytes that parse to it and \<^verbatim>\<open>BuildBlock\<close> producing it all return
  that very wrapper; no wrapper is allocated, the store is not asked, and every
  identifier keeps the wrapper it had.
\<close>

theorem cached_wrapper_returned:
  assumes "canonical c i = Some w"
  shows "fst (GetBlock c i) = Ok w
       \<and> allocated (snd (GetBlock c i)) = allocated c
       \<and> storeCalls (snd (GetBlock c i)) = storeCalls c
       \<and> canonical (snd (GetBlock c i)) = canonical c
       \<and> (unmarshalBlock c b = Inr blk \<and> blkID blk = i \<longrightarrow>
            fst (ParseBlock c b) = Ok w
          \<and> allocated (snd (ParseBlock c b)) = allocated c
          \<and> canonical (snd (ParseBlock c b)) = canonical c)
       \<and> (buildBlock c () = Inr blk' \<and> blkID blk' = i \<longrightarrow>
            fst (BuildBlock c) = Ok w
          \<and> allocated (snd (BuildBlock c)) = allocated c
          \<and> canonical (snd (BuildBlock c)) = canonical c)"
  using assms
  by (auto simp: GetBlock_hit ParseBlock_hit BuildBlock_hit getCachedBlock_other
      getCachedBlock_canonical)

text \<open>
  Claim C4, witness: block 2 is cached by a first \<^verbatim>\<open>GetBlock\<close> and then asked for
  and parsed again; block 5 is cached by \<^verbatim>\<open>ParseBlock\<close> and then built.
\<close>

theorem cached_wrapper_returned_witness:
  "canonical (snd (GetBlock (NewCache (exampleConfig None)) 2)) 2
     = Some \<lparr>ref = 1, Block = exampleBlock 2 1 Processing True\<rparr>
   \<and> fst (GetBlock (snd (GetBlock (NewCache (exampleConfig None)) 2)) 2)
     = Ok \<lparr>ref = 1, Block = exampleBlock 2 1 Processing True\<rparr>
   \<and> fst (ParseBlock (snd (GetBlock (NewCache (exampleConfig None)) 2)) [2])
     = Ok \<lparr>ref = 1, Block = exampleBlock 2 1 Processing True\<rparr>
   \<and> allocated (snd (ParseBlock (snd (GetBlock (NewCache (exampleConfig None)) 2)) [2])) = 2
   \<and> canonical (snd (ParseBlock (NewCache (exampleConfig None)) [5])) 5
     = Some \<lparr>ref = 1, Block = exampleBlock 5 1 Processing True\<rparr>
   \<and> fst (BuildBlock (snd (ParseBlock (NewCache (exampleConfig None)) [5])))
     = Ok \<lparr>ref = 1, Block = exampleBlock 5 1 Processing True\<rparr>"
proof -
  let ?c0 = "NewCache (exampleConfig None)"
  let ?c1 = "snd (GetBlock ?c0 2)"
  let ?c2 = "snd (ParseBlock ?c0 [5])"
  let ?w2 = "\<lparr>ref = 1, Block = exampleBlock 2 1 Processing True\<rparr>"
  let ?w5 = "\<lparr>ref = 1, Block = exampleBlock 5 1 Processing True\<rparr>"
  have k1: "canonical ?c1 2 = Some ?w2"
    by (simp add: canonical_def NewCache_def GetBlock_def ParseBlock_def BuildBlock_def getCachedBlock_def
      addBlockOutsideConsensus_def callGetStatus_def Get_def Put_def Evict_def Flush_def
      FlushCaches_def keys_def Let_def exampleBlock_def exampleStore_def exampleUnmarshal_def exampleBuild_def
      exampleConfig_def)
  have k2: "canonical ?c2 5 = Some ?w5"
    by (simp add: canonical_def NewCache_def GetBlock_def ParseBlock_def BuildBlock_def getCachedBlock_def
      addBlockOutsideConsensus_def callGetStatus_def Get_def Put_def Evict_def Flush_def
      FlushCaches_def keys_def Let_def exampleBlock_def exampleStore_def exampleUnmarshal_def exampleBuild_def
      exampleConfig_def)
  have u: "unmarshalBlock ?c1 [2] = Inr (exampleBlock 2 1 Processing True)
           \<and> blkID (exampleBlock 2 1 Processing True) = 2"
    by (simp add: NewCache_def GetBlock_def ParseBlock_def BuildBlock_def getCachedBlock_def
      addBlockOutsideConsensus_def callGetStatus_def Get_def Put_def Evict_def Flush_def
      FlushCaches_def keys_def Let_def exampleBlock_def exampleStore_def exampleUnmarshal_def exampleBuild_def
      exampleConfig_def)
  have b: "buildBlock ?c2 () = Inr (exampleBlock 5 1 Processing True)
           \<and> blkID (exampleBlock 5 1 Processing True) = 5"
    by (simp add: NewCache_def GetBlock_def ParseBlock_def BuildBlock_def getCachedBlock_def
      addBlockOutsideConsensus_def callGetStatus_def Get_def Put_def Evict_def Flush_def
      FlushCaches_def keys_def Let_def exampleBlock_def exampleStore_def exampleUnmarshal_def exampleBuild_def
      exampleConfig_def)
  have a: "allocated ?c1 = 2"
    by (simp add: NewCache_def GetBlock_def ParseBlock_def BuildBlock_def getCachedBlock_def
      addBlockOutsideConsensus_def callGetStatus_def Get_def Put_def Evict_def Flush_def
      FlushCaches_def keys_def Let_def exampleBlock_def exampleStore_def exampleUnmarshal_def exampleBuild_def
      exampleConfig_def)
  show ?thesis
    using cached_wrapper_returned [OF k1, of "[2]" "exampleBlock 2 1 Processing True"]
      cached_wrapper_returned [OF k2, of _ _ "exampleBlock 5 1 Processing True"]
      k1 k2 u b a
    by simp
qed

subsection \<open>Classification outside consensus\<close>

text \<open>
  Claim C5. When the status resolver answers with a status and no error,
  \<^verbatim>\<open>addBlockOutsideConsensus\<close> puts the new wrapper into the decided cache if the status
  is Accepted or Rejected and into the unverified cache if it is Processing, returns
  that wrapper, and touches no other cache (a cache of positive capacity then holds
  the wrapper under the block's identifier). For the remaining status, Unknown, it
  returns an error and leaves every cache as it was.
\<close>

theorem addBlockOutsideConsensus_placement:
  assumes "callGetStatus c blk = Some ((status, None), blk')"
  shows "(status = Accepted \<or> status = Rejected \<longrightarrow>
            addBlockOutsideConsensus c blk
              = (Ok \<lparr>ref = allocated c, Block = blk'\<rparr>,
                 c\<lparr>allocated := allocated c + 1,
                   decidedBlocks := Put (decidedBlocks c) (blkID blk)
                                      \<lparr>ref = allocated c, Block = blk'\<rparr>\<rparr>)
          \<and> (0 < Size (decidedBlocks c) \<longrightarrow>
               map_of (entries (decidedBlocks (snd (addBlockOutsideConsensus c blk)))) (blkID blk)
                 = Some \<lparr>ref = allocated c, Block = blk'\<rparr>))
       \<and> (status = Processing \<longrightarrow>
            addBlockOutsideConsensus c blk
              = (Ok \<lparr>ref = allocated c, Block = blk'\<rparr>,
                 c\<lparr>allocated := allocated c + 1,
                   unverifiedBlocks := Put (unverifiedBlocks c) (blkID blk)
                                         \<lparr>ref = allocated c, Block = blk'\<rparr>\<rparr>)
          \<and> (0 < Size (unverifiedBlocks c) \<longrightarrow>
               map_of (entries (unverifiedBlocks (snd (addBlockOutsideConsensus c blk))))
                 (blkID blk)
                 = Some \<lparr>ref = allocated c, Block = blk'\<rparr>))
       \<and> (status = Unknown \<longrightarrow>
            addBlockOutsideConsensus c blk
              = (Err (Errorf ''found unexpected status for blk %s: %s''
                        [ArgID (blkID blk), ArgStatus Unknown]),
                 c\<lparr>allocated := allocated c + 1\<rparr>))"
  using assms
  by (auto simp: addBlockOutsideConsensus_def Let_def callGetStatus_allocated map_of_Put_same)

text \<open>
  Claim C5, witness: a rejected, a processing and an unknown block classified by the
  cache that trusts the status a block reports.
\<close>

theorem addBlockOutsideConsensus_placement_witness:
  "addBlockOutsideConsensus (NewCache (exampleConfig None)) (exampleBlock 8 0 Rejected True)
     = (Ok \<lparr>ref = 1, Block = exampleBlock 8 0 Rejected True\<rparr>,
        (NewCache (exampleConfig None))
          \<lparr>allocated := 2,
            decidedBlocks := Put (decidedBlocks (NewCache (exampleConfig None))) 8
                               \<lparr>ref = 1, Block = exampleBlock 8 0 Rejected True\<rparr>\<rparr>)
   \<and> map_of (entries (decidedBlocks (snd (addBlockOutsideConsensus
         (NewCache (exampleConfig None)) (exampleBlock 8 0 Rejected True))))) 8
       = Some \<lparr>ref = 1, Block = exampleBlock 8 0 Rejected True\<rparr>
   \<and> map_of (entries (unverifiedBlocks (snd (addBlockOutsideConsensus
         (NewCache (exampleConfig None)) (exampleBlock 9 1 Processing True))))) 9
       = Some \<lparr>ref = 1, Block = exampleBlock 9 1 Processing True\<rparr>
   \<and> fst (addBlockOutsideConsensus (NewCache (exampleConfig None))
            (exampleBlock 9 1 Unknown True))
       = Err (Errorf ''found unexpected status for blk %s: %s'' [ArgID 9, ArgStatus Unknown])"
proof -
  let ?c = "NewCache (exampleConfig None)"
  have g: "callGetStatus ?c (exampleBlock i h s True) = Some ((s, None), exampleBlock i h s True)"
    for i h s
    by (simp add: callGetStatus_def NewCache_def exampleConfig_def exampleBlock_def Let_def)
  have z: "0 < Size (decidedBlocks ?c)" "0 < Size (unverifiedBlocks ?c)" "allocated ?c = 1"
    by (simp_all add: NewCache_def exampleConfig_def Let_def Put_def)
  have i: "blkID (exampleBlock i h s True) = i" for i h s
    by (simp add: exampleBlock_def)
  show ?thesis
    using addBlockOutsideConsensus_placement [OF g [of 8 0 Rejected]]
      addBlockOutsideConsensus_placement [OF g [of 9 1 Processing]]
      addBlockOutsideConsensus_placement [OF g [of 9 1 Unknown]]
    by (simp add: z i map_of_Put_same)
qed

subsection \<open>Construction without a height oracle\<close>

text \<open>
  With a height oracle the two constructors build the same cache (the registerer
  accepting the metrics). Without one, \<^verbatim>\<open>NewCache\<close> resolves a status to what the
  block reports, and \<^verbatim>\<open>NewMeteredCache\<close> builds the same cache except for a nil
  \<^verbatim>\<open>getStatus\<close>.
\<close>

lemma NewMeteredCache_with_oracle:
  assumes "GetBlockIDAtHeight config = Some getBlockIDAtHeight"
    and "\<forall>name. registerer name = None"
  shows "NewMeteredCache registerer namespace config = Inr (NewCache config)"
  using assms by (simp add: NewMeteredCache_def NewCache_def metercacher_New_def Let_def)

lemma NewMeteredCache_nil_getStatus:
  assumes "GetBlockIDAtHeight config = None"
    and "\<forall>name. registerer name = None"
  shows "NewMeteredCache registerer namespace config
           = Inr ((NewCache config)\<lparr>getStatus := NilFunc\<rparr>)"
  using assms by (simp add: NewMeteredCache_def NewCache_def metercacher_New_def Let_def)

lemma NewCache_direct:
  assumes "GetBlockIDAtHeight config = None"
  shows "callGetStatus (NewCache config) blk = Some ((blkStatus blk, None), blk)"
  using assms by (simp add: NewCache_def callGetStatus_def Let_def)

text \<open>
  Claim C8 does not hold of the code. \<^verbatim>\<open>NewCache\<close> installs the closure returning
  \<^verbatim>\<open>blk.Status()\<close> before it looks at the oracle; \<^verbatim>\<open>NewMeteredCache\<close> does not, and
  without an oracle its \<^verbatim>\<open>getStatus\<close> stays nil. On the same configuration the cache
  of \<^verbatim>\<open>NewCache\<close> returns the wrappers of the parsed, fetched and built blocks, while
  in the cache of \<^verbatim>\<open>NewMeteredCache\<close> each of these calls panics.
\<close>

theorem NewMeteredCache_without_oracle_panics:
  "(case NewMeteredCache (\<lambda>name. None) ''vm'' (exampleConfig None) of
      Inl err \<Rightarrow> False
    | Inr c \<Rightarrow> getStatus c = NilFunc \<and> fst (ParseBlock c [5]) = Panic
              \<and> fst (GetBlock c 2) = Panic \<and> fst (BuildBlock c) = Panic)
   \<and> getStatus (NewCache (exampleConfig None)) = SelfReported
   \<and> fst (ParseBlock (NewCache (exampleConfig None)) [5])
       = Ok \<lparr>ref = 1, Block = exampleBlock 5 1 Processing True\<rparr>
   \<and> fst (GetBlock (NewCache (exampleConfig None)) 2)
       = Ok \<lparr>ref = 1, Block = exampleBlock 2 1 Processing True\<rparr>
   \<and> fst (BuildBlock (NewCache (exampleConfig None)))
       = Ok \<lparr>ref = 1, Block = exampleBlock 5 1 Processing True\<rparr>"
  by (simp add: NewMeteredCache_def metercacher_New_def NewCache_def GetBlock_def ParseBlock_def BuildBlock_def getCachedBlock_def
      addBlockOutsideConsensus_def callGetStatus_def Get_def Put_def Evict_def Flush_def
      FlushCaches_def keys_def Let_def exampleBlock_def exampleStore_def exampleUnmarshal_def exampleBuild_def
      exampleConfig_def)

end
